theory Spec2Isabelle
  imports Main
begin

section \<open>The configuration store\<close>

text \<open>
  \<^verbatim>\<open>SysConfigDialog.cpp\<close> reads and writes two members of the global \<^verbatim>\<open>AppConfig\<close>
  object \<^verbatim>\<open>g_Conf\<close> by name: \<^verbatim>\<open>PresetIndex\<close> and \<^verbatim>\<open>EnablePresets\<close>. Every other member is
  opaque to this file. The remaining members are kept in two groups: those a preset
  governs (the bundle of values a preset index stands for) and the rest.
\<close>

record ('b, 'o) AppConfig =
  PresetIndex :: int
  EnablePresets :: bool
  PresetFields :: 'b
  OtherFields :: 'o

text \<open>
  The two flags every \<^verbatim>\<open>ApplyConfigToGui\<close> call of this file passes, joined with \<^verbatim>\<open>|\<close>.
  Their numeric values are declared outside the file; a flag word is the set of the
  flags it holds.
\<close>

datatype apply_flag = APPLY_FLAG_FROM_PRESET | APPLY_FLAG_MANUALLY_PROPAGATE

definition preset_flags :: "apply_flag set" where
  "preset_flags = {APPLY_FLAG_FROM_PRESET} \<union> {APPLY_FLAG_MANUALLY_PROPAGATE}"

section \<open>Collaborators\<close>

text \<open>
  A page of the dialog's listbook. \<^verbatim>\<open>IsSpecificConfig()\<close> tells whether the page is a
  \<^verbatim>\<open>BaseApplicableConfigPanel_SpecificConfig\<close>; \<open>panel_applied\<close> holds, oldest first, every
  configuration the page has been handed through \<^verbatim>\<open>ApplyConfigToGui\<close>.
\<close>

record ('b, 'o) ConfigPanel =
  IsSpecificConfig :: bool
  panel_applied :: "(('b, 'o) AppConfig \<times> apply_flag set) list"

text \<open>
  Modelled from the spec: \<^verbatim>\<open>BaseApplicableConfigPanel_SpecificConfig::ApplyConfigToGui\<close> is
  virtual and implemented outside this file. The spec gives it as
  \<open>applyPreview(snapshot, flags)\<close>, a broadcast whose only effect is on the receiving
  surface: the panel records what it received, and changes neither the configuration it
  is handed nor \<^verbatim>\<open>g_Conf\<close>.
\<close>

definition Panel_ApplyConfigToGui ::
  "('b, 'o) AppConfig \<Rightarrow> apply_flag set \<Rightarrow> ('b, 'o) ConfigPanel \<Rightarrow> ('b, 'o) ConfigPanel" where
  "Panel_ApplyConfigToGui configToApply flags p =
     p\<lparr>panel_applied := panel_applied p @ [(configToApply, flags)]\<rparr>"

text \<open>
  The main frame, as far as its menus depend on presets: \<open>menu_applied\<close> holds every
  configuration handed to \<^verbatim>\<open>ApplyConfigToGui\<close>, \<open>menu_pending\<close> the preset-governed values
  the menus currently show, \<open>menu_commits\<close> counts the calls of \<^verbatim>\<open>CommitPreset_noTrigger\<close>.
\<close>

record ('b, 'o) MainEmuFrame =
  menu_applied :: "(('b, 'o) AppConfig \<times> apply_flag set) list"
  menu_pending :: 'b
  menu_commits :: nat

text \<open>
  Modelled from the spec: \<^verbatim>\<open>MainEmuFrame::ApplyConfigToGui\<close> is defined outside this file.
  The spec gives it the same contract as a panel's \<open>applyPreview(snapshot, flags)\<close>; the
  menus then show the values of the configuration they were handed.
\<close>

definition MainFrame_ApplyConfigToGui ::
  "('b, 'o) AppConfig \<Rightarrow> apply_flag set \<Rightarrow> ('b, 'o) MainEmuFrame \<Rightarrow> ('b, 'o) MainEmuFrame" where
  "MainFrame_ApplyConfigToGui configToApply flags mf =
     mf\<lparr>menu_applied := menu_applied mf @ [(configToApply, flags)],
        menu_pending := PresetFields configToApply\<rparr>"

text \<open>
  Modelled from the spec: \<^verbatim>\<open>MainEmuFrame::CommitPreset_noTrigger\<close> is defined outside this
  file. The spec has the main-menu surface "independently persist its own pending preset
  state into ConfigurationStore", a state that "parallels, but is distinct from, the
  dialog's widget state"; the comment above \<^verbatim>\<open>Apply\<close> says the same ("make the main menu
  system write the presets values it holds to g_Conf"). The menus write the values they
  show into the store and leave \<^verbatim>\<open>PresetIndex\<close> and \<^verbatim>\<open>EnablePresets\<close>, which the dialog
  owns, alone. The result is the main frame and the store after the call.
\<close>

definition CommitPreset_noTrigger ::
  "('b, 'o) MainEmuFrame \<Rightarrow> ('b, 'o) AppConfig \<Rightarrow> ('b, 'o) MainEmuFrame \<times> ('b, 'o) AppConfig" where
  "CommitPreset_noTrigger mf conf =
     (mf\<lparr>menu_commits := Suc (menu_commits mf)\<rparr>, conf\<lparr>PresetFields := menu_pending mf\<rparr>)"

text \<open>
  Modelled from the spec: \<^verbatim>\<open>AppConfig::IsOkApplyPreset\<close> is defined outside this file. The
  spec gives it as the deterministic, total function \<open>applyPresetValues(snapshot,
  presetIndex)\<close>: "each preset index maps to one fixed bundle of field values", a mapping
  that is external static data (\<open>bundle\<close> here). The comment at its call says it "always
  applies/enabled", and the spec's scenario has the snapshot carry the index applied.
  The boolean it returns is dropped by the caller.
\<close>

definition IsOkApplyPreset ::
  "(int \<Rightarrow> 'b) \<Rightarrow> int \<Rightarrow> bool \<Rightarrow> ('b, 'o) AppConfig \<Rightarrow> ('b, 'o) AppConfig" where
  "IsOkApplyPreset bundle n ignoreMTVU conf =
     conf\<lparr>PresetFields := bundle n, EnablePresets := True, PresetIndex := n\<rparr>"

section \<open>Widgets\<close>

record wxSlider =
  sl_value :: int
  sl_min :: int
  sl_max :: int
  sl_enabled :: bool

record pxStaticText =
  st_label :: string
  st_colour :: string
  st_enabled :: bool

text \<open>
  Modelled from the spec: the slider belongs to the windowing toolkit. The spec relies on
  "slider ranges enforced by the UI control's own bounds": the control keeps its value
  between its minimum and its maximum, at construction and when the user moves it.
\<close>

definition wxSlider_new :: "int \<Rightarrow> int \<Rightarrow> int \<Rightarrow> wxSlider" where
  "wxSlider_new v minValue maxValue =
     \<lparr>sl_value = max minValue (min maxValue v), sl_min = minValue, sl_max = maxValue,
      sl_enabled = True\<rparr>"

definition wxSlider_moved :: "int \<Rightarrow> wxSlider \<Rightarrow> wxSlider" where
  "wxSlider_moved v sl = sl\<lparr>sl_value := max (sl_min sl) (min (sl_max sl) v)\<rparr>"

section \<open>The dialog and the globals it touches\<close>

text \<open>
  \<open>g_Conf\<close> and \<open>main_frame\<close> (what \<^verbatim>\<open>GetMainFramePtr()\<close> returns, \<open>None\<close> for a null
  pointer) are globals; the other fields are members of \<^verbatim>\<open>SysConfigDialog\<close>. \<open>m_labels\<close>
  and the pages of \<open>m_listbook\<close> are separate containers, as in the source, which counts
  the first and indexes the second. \<open>preview_calls\<close> has no counterpart in the source (a
  commented-out \<^verbatim>\<open>Console.WriteLn\<close> apart): it lists, oldest first, the arguments
  \<^verbatim>\<open>UpdateGuiForPreset\<close> was entered with, so that theorems can speak of the last call.
\<close>

record ('b, 'o) sys_state =
  g_Conf :: "('b, 'o) AppConfig"
  main_frame :: "('b, 'o) MainEmuFrame option"
  m_listbook :: "('b, 'o) ConfigPanel list option"
  m_labels :: "string list"
  m_slider_presets :: wxSlider
  m_check_presets :: bool
  m_msg_preset :: pxStaticText
  preview_calls :: "(int \<times> bool) list"

datatype error = PageOutOfRange nat

text \<open>
  \<^verbatim>\<open>m_listbook->GetPage(i)\<close>. The toolkit asserts on an index past the last page and the
  caller dereferences what comes back at once, so a page that is not there ends the run.
\<close>

definition GetPage :: "'a list \<Rightarrow> nat \<Rightarrow> 'a option" where
  "GetPage book i = (if i < length book then Some (book ! i) else None)"

text \<open>
  The loop of \<^verbatim>\<open>UpdateGuiForPreset\<close> over \<^verbatim>\<open>i = 0 .. pages - 1\<close>, from index \<open>i\<close> on.
\<close>

function page_loop ::
  "('b, 'o) AppConfig \<Rightarrow> nat \<Rightarrow> nat \<Rightarrow> ('b, 'o) ConfigPanel list \<Rightarrow>
     error + ('b, 'o) ConfigPanel list" where
  "page_loop preset pages i book =
     (if i < pages then
        (case GetPage book i of
           None \<Rightarrow> Inl (PageOutOfRange i)
         | Some page \<Rightarrow>
             if IsSpecificConfig page
             then page_loop preset pages (Suc i)
                    (book[i := Panel_ApplyConfigToGui preset preset_flags page])
             else page_loop preset pages (Suc i) book)
      else Inr book)"
  by pat_completeness auto
termination
  by (relation "measure (\<lambda>(preset, pages, i, book). pages - i)") auto

declare page_loop.simps [simp del]

text \<open>
  \<^verbatim>\<open>UpdateGuiForPreset(presetIndex, presetsEnabled)\<close>. \<open>applyPreset\<close> stands for
  \<^verbatim>\<open>AppConfig::IsOkApplyPreset\<close>, called on the local copy \<^verbatim>\<open>preset\<close>.
\<close>

definition UpdateGuiForPreset ::
  "(int \<Rightarrow> bool \<Rightarrow> ('b, 'o) AppConfig \<Rightarrow> ('b, 'o) AppConfig) \<Rightarrow> int \<Rightarrow> bool \<Rightarrow>
     ('b, 'o) sys_state \<Rightarrow> error + ('b, 'o) sys_state" where
  "UpdateGuiForPreset applyPreset presetIndex presetsEnabled s0 =
     (let s = s0\<lparr>preview_calls := preview_calls s0 @ [(presetIndex, presetsEnabled)]\<rparr> in
      case m_listbook s of
        None \<Rightarrow> Inr s
      | Some book \<Rightarrow>
          let preset = g_Conf s;
              preset = applyPreset presetIndex False preset;
              preset = preset\<lparr>EnablePresets := presetsEnabled\<rparr>;
              pages = length (m_labels s)
          in (case page_loop preset pages 0 book of
                Inl err \<Rightarrow> Inl err
              | Inr book' \<Rightarrow>
                  let origEnable = EnablePresets preset;
                      preset = preset\<lparr>EnablePresets := True\<rparr>;
                      frame' = (case main_frame s of
                                  None \<Rightarrow> None
                                | Some mf \<Rightarrow>
                                    Some (MainFrame_ApplyConfigToGui preset preset_flags mf));
                      preset = preset\<lparr>EnablePresets := origEnable\<rparr>
                  in Inr (s\<lparr>m_listbook := Some book', main_frame := frame'\<rparr>)))"

text \<open>
  \<^verbatim>\<open>AddPresetsControl()\<close>: the slider, the checkbox and the label are created from
  \<^verbatim>\<open>g_Conf\<close>. \<open>presetText\<close> stands for \<^verbatim>\<open>AppConfig::isOkGetPresetTextAndColor\<close>, which fills
  a label and a colour passed by reference; \<open>maxPresetIndex\<close> for
  \<^verbatim>\<open>AppConfig::GetMaxPresetIndex()\<close>. Tooltips, sizes and sizers are left out.
\<close>

definition AddPresetsControl ::
  "(int \<Rightarrow> string \<times> string \<Rightarrow> string \<times> string) \<Rightarrow> int \<Rightarrow>
     ('b, 'o) sys_state \<Rightarrow> ('b, 'o) sys_state" where
  "AddPresetsControl presetText maxPresetIndex s =
     (let slider = wxSlider_new (PresetIndex (g_Conf s)) 0 maxPresetIndex;
          slider = slider\<lparr>sl_enabled := EnablePresets (g_Conf s)\<rparr>;
          chk = EnablePresets (g_Conf s);
          (l, c) = presetText (PresetIndex (g_Conf s)) ('''', ''Red'');
          msg = \<lparr>st_label = l, st_colour = c, st_enabled = EnablePresets (g_Conf s)\<rparr>
      in s\<lparr>m_slider_presets := slider, m_check_presets := chk, m_msg_preset := msg\<rparr>)"

text \<open>\<^verbatim>\<open>Presets_Toggled\<close>, the handler of the checkbox.\<close>

definition Presets_Toggled ::
  "(int \<Rightarrow> bool \<Rightarrow> ('b, 'o) AppConfig \<Rightarrow> ('b, 'o) AppConfig) \<Rightarrow>
     ('b, 'o) sys_state \<Rightarrow> error + ('b, 'o) sys_state" where
  "Presets_Toggled applyPreset s =
     (let s = s\<lparr>m_slider_presets := (m_slider_presets s)\<lparr>sl_enabled := m_check_presets s\<rparr>\<rparr>;
          s = s\<lparr>m_msg_preset := (m_msg_preset s)\<lparr>st_enabled := m_check_presets s\<rparr>\<rparr>
      in UpdateGuiForPreset applyPreset (sl_value (m_slider_presets s)) (m_check_presets s) s)"

text \<open>\<^verbatim>\<open>Preset_Scroll\<close>, the handler of both scroll events of the slider.\<close>

definition Preset_Scroll ::
  "(int \<Rightarrow> bool \<Rightarrow> ('b, 'o) AppConfig \<Rightarrow> ('b, 'o) AppConfig) \<Rightarrow>
     (int \<Rightarrow> string \<times> string \<Rightarrow> string \<times> string) \<Rightarrow>
     ('b, 'o) sys_state \<Rightarrow> error + ('b, 'o) sys_state" where
  "Preset_Scroll applyPreset presetText s =
     (let (pl, c) = presetText (sl_value (m_slider_presets s)) ('''', '''');
          s = s\<lparr>m_msg_preset := (m_msg_preset s)\<lparr>st_label := pl\<rparr>\<rparr>;
          s = s\<lparr>m_msg_preset := (m_msg_preset s)\<lparr>st_colour := c\<rparr>\<rparr>
      in UpdateGuiForPreset applyPreset (sl_value (m_slider_presets s)) (m_check_presets s) s)"

text \<open>\<^verbatim>\<open>Apply()\<close>.\<close>

definition Apply :: "('b, 'o) sys_state \<Rightarrow> ('b, 'o) sys_state" where
  "Apply s =
     (let s = s\<lparr>g_Conf := (g_Conf s)\<lparr>EnablePresets := m_check_presets s\<rparr>\<rparr>;
          s = s\<lparr>g_Conf := (g_Conf s)\<lparr>PresetIndex := sl_value (m_slider_presets s)\<rparr>\<rparr>
      in case main_frame s of
           None \<Rightarrow> s
         | Some mf \<Rightarrow>
             (case CommitPreset_noTrigger mf (g_Conf s) of
                (mf', conf') \<Rightarrow> s\<lparr>g_Conf := conf', main_frame := Some mf'\<rparr>))"

text \<open>\<^verbatim>\<open>Cancel()\<close>.\<close>

definition Cancel :: "('b, 'o) sys_state \<Rightarrow> ('b, 'o) sys_state" where
  "Cancel s =
     (case main_frame s of
        None \<Rightarrow> s
      | Some mf \<Rightarrow>
          s\<lparr>main_frame := Some (MainFrame_ApplyConfigToGui (g_Conf s) preset_flags mf)\<rparr>)"

section \<open>The dialog session\<close>

text \<open>
  Modelled from the spec: the toolkit's event loop is outside this file. The spec's
  control flow is "user interaction (slider move, checkbox toggle)", then the
  coordinator's handler, each event handled to its end before the next. The control has
  its new value when its handler runs: a click flips the checkbox, a move puts the slider
  at the position asked for, within its bounds.
\<close>

datatype event = Slider_moved int | Checkbox_clicked

definition dispatch ::
  "(int \<Rightarrow> bool \<Rightarrow> ('b, 'o) AppConfig \<Rightarrow> ('b, 'o) AppConfig) \<Rightarrow>
     (int \<Rightarrow> string \<times> string \<Rightarrow> string \<times> string) \<Rightarrow> event \<Rightarrow>
     ('b, 'o) sys_state \<Rightarrow> error + ('b, 'o) sys_state" where
  "dispatch applyPreset presetText ev s =
     (case ev of
        Slider_moved v \<Rightarrow>
          Preset_Scroll applyPreset presetText
            (s\<lparr>m_slider_presets := wxSlider_moved v (m_slider_presets s)\<rparr>)
      | Checkbox_clicked \<Rightarrow>
          Presets_Toggled applyPreset (s\<lparr>m_check_presets := \<not> m_check_presets s\<rparr>))"

fun run_events ::
  "(int \<Rightarrow> bool \<Rightarrow> ('b, 'o) AppConfig \<Rightarrow> ('b, 'o) AppConfig) \<Rightarrow>
     (int \<Rightarrow> string \<times> string \<Rightarrow> string \<times> string) \<Rightarrow> event list \<Rightarrow>
     ('b, 'o) sys_state \<Rightarrow> error + ('b, 'o) sys_state" where
  "run_events applyPreset presetText [] s = Inr s"
| "run_events applyPreset presetText (ev # evs) s =
     (case dispatch applyPreset presetText ev s of
        Inl err \<Rightarrow> Inl err
      | Inr s' \<Rightarrow> run_events applyPreset presetText evs s')"

text \<open>
  One use of the dialog that ends with Apply: the presets controls are created, the user
  moves the slider and clicks the checkbox any number of times, then \<^verbatim>\<open>Apply\<close> runs.
\<close>

definition dialog_session ::
  "(int \<Rightarrow> bool \<Rightarrow> ('b, 'o) AppConfig \<Rightarrow> ('b, 'o) AppConfig) \<Rightarrow>
     (int \<Rightarrow> string \<times> string \<Rightarrow> string \<times> string) \<Rightarrow> int \<Rightarrow> event list \<Rightarrow>
     ('b, 'o) sys_state \<Rightarrow> error + ('b, 'o) sys_state" where
  "dialog_session applyPreset presetText maxPresetIndex evs s =
     (case run_events applyPreset presetText evs
             (AddPresetsControl presetText maxPresetIndex s) of
        Inl err \<Rightarrow> Inl err
      | Inr s' \<Rightarrow> Inr (Apply s'))"

section \<open>Notions the theorems use\<close>

text \<open>
  The listbook has a page for every label: what \<^verbatim>\<open>AddPage\<close> maintains, and what the loop
  of \<^verbatim>\<open>UpdateGuiForPreset\<close> needs to find a page at every index it visits.
\<close>

definition pages_ok :: "('b, 'o) sys_state \<Rightarrow> bool" where
  "pages_ok s =
     (case m_listbook s of None \<Rightarrow> True | Some book \<Rightarrow> length (m_labels s) \<le> length book)"

text \<open>What one visit of the loop does to a page.\<close>

definition preview_page ::
  "('b, 'o) AppConfig \<Rightarrow> ('b, 'o) ConfigPanel \<Rightarrow> ('b, 'o) ConfigPanel" where
  "preview_page preset p =
     (if IsSpecificConfig p then Panel_ApplyConfigToGui preset preset_flags p else p)"

text \<open>
  The configuration \<^verbatim>\<open>UpdateGuiForPreset\<close> hands to the panels: its local \<^verbatim>\<open>preset\<close> as it
  stands when the loop starts.
\<close>

definition panel_snapshot ::
  "(int \<Rightarrow> bool \<Rightarrow> ('b, 'o) AppConfig \<Rightarrow> ('b, 'o) AppConfig) \<Rightarrow> int \<Rightarrow> bool \<Rightarrow>
     ('b, 'o) sys_state \<Rightarrow> ('b, 'o) AppConfig" where
  "panel_snapshot applyPreset i e s = (applyPreset i False (g_Conf s))\<lparr>EnablePresets := e\<rparr>"

text \<open>
  What the main frame and the pages have received so far, and what they received between
  an earlier state and a later one.
\<close>

definition menu_received ::
  "('b, 'o) sys_state \<Rightarrow> (('b, 'o) AppConfig \<times> apply_flag set) list" where
  "menu_received s = (case main_frame s of None \<Rightarrow> [] | Some mf \<Rightarrow> menu_applied mf)"

definition panels_received ::
  "('b, 'o) sys_state \<Rightarrow> (('b, 'o) AppConfig \<times> apply_flag set) list list" where
  "panels_received s =
     (case m_listbook s of None \<Rightarrow> [] | Some book \<Rightarrow> map panel_applied book)"

definition newer :: "'a list \<Rightarrow> 'a list \<Rightarrow> 'a list" where
  "newer old new = drop (length old) new"

definition delivered ::
  "('b, 'o) sys_state \<Rightarrow> ('b, 'o) sys_state \<Rightarrow>
     (('b, 'o) AppConfig \<times> apply_flag set) list \<times>
     (('b, 'o) AppConfig \<times> apply_flag set) list list" where
  "delivered s s' =
     (newer (menu_received s) (menu_received s'),
      map2 newer (panels_received s) (panels_received s'))"

section \<open>Example states\<close>

text \<open>
  A preset table in which every preset switches the one governed setting on (the
  "Patches" menu item of the comment in \<^verbatim>\<open>UpdateGuiForPreset\<close>), and a label table for six
  presets.
\<close>

definition ex_bundle :: "int \<Rightarrow> bool" where
  "ex_bundle n = True"

definition ex_text :: "int \<Rightarrow> string \<times> string \<Rightarrow> string \<times> string" where
  "ex_text n lc = (if 0 \<le> n \<and> n \<le> 5 then (''Preset'', ''Green'') else lc)"

text \<open>
  The store of the spec's scenario, \<open>presetIndex = 1, presetsEnabled = true\<close>, with a main
  frame and two pages, the second of them preset-aware.
\<close>

definition ex_state :: "(bool, string) sys_state" where
  "ex_state =
     \<lparr>g_Conf = \<lparr>PresetIndex = 1, EnablePresets = True, PresetFields = False,
                OtherFields = ''folders''\<rparr>,
      main_frame = Some \<lparr>menu_applied = [], menu_pending = False, menu_commits = 0\<rparr>,
      m_listbook = Some [\<lparr>IsSpecificConfig = False, panel_applied = []\<rparr>,
                         \<lparr>IsSpecificConfig = True, panel_applied = []\<rparr>],
      m_labels = [''BIOS'', ''Speedhacks''],
      m_slider_presets = \<lparr>sl_value = 1, sl_min = 0, sl_max = 5, sl_enabled = True\<rparr>,
      m_check_presets = True,
      m_msg_preset = \<lparr>st_label = ''Preset'', st_colour = ''Green'', st_enabled = True\<rparr>,
      preview_calls = []\<rparr>"

text \<open>The same with presets disabled in the store and in the dialog.\<close>

definition ex_state_off :: "(bool, string) sys_state" where
  "ex_state_off =
     \<lparr>g_Conf = \<lparr>PresetIndex = 1, EnablePresets = False, PresetFields = False,
                OtherFields = ''folders''\<rparr>,
      main_frame = Some \<lparr>menu_applied = [], menu_pending = False, menu_commits = 0\<rparr>,
      m_listbook = Some [\<lparr>IsSpecificConfig = False, panel_applied = []\<rparr>,
                         \<lparr>IsSpecificConfig = True, panel_applied = []\<rparr>],
      m_labels = [''BIOS'', ''Speedhacks''],
      m_slider_presets = \<lparr>sl_value = 1, sl_min = 0, sl_max = 5, sl_enabled = False\<rparr>,
      m_check_presets = False,
      m_msg_preset = \<lparr>st_label = ''Preset'', st_colour = ''Green'', st_enabled = False\<rparr>,
      preview_calls = []\<rparr>"

text \<open>A dialog whose listbook was never created, and a run without a main frame.\<close>

definition ex_state_nobook :: "(bool, string) sys_state" where
  "ex_state_nobook = ex_state\<lparr>m_listbook := None, m_labels := []\<rparr>"

definition ex_state_noframe :: "(bool, string) sys_state" where
  "ex_state_noframe = ex_state\<lparr>main_frame := None\<rparr>"

text \<open>
  The state of step 3 of the comment in \<^verbatim>\<open>UpdateGuiForPreset\<close>: presets were disabled,
  the user has checked the box and unchecked it again, nothing has been applied. The
  menus show the preset's values; the store still holds the old ones.
\<close>

definition ex_state_pending :: "(bool, string) sys_state" where
  "ex_state_pending =
     \<lparr>g_Conf = \<lparr>PresetIndex = 1, EnablePresets = False, PresetFields = False,
                OtherFields = ''folders''\<rparr>,
      main_frame = Some
        \<lparr>menu_applied =
           [(\<lparr>PresetIndex = 1, EnablePresets = True, PresetFields = True,
               OtherFields = ''folders''\<rparr>, preset_flags),
            (\<lparr>PresetIndex = 1, EnablePresets = True, PresetFields = True,
               OtherFields = ''folders''\<rparr>, preset_flags)],
         menu_pending = True, menu_commits = 0\<rparr>,
      m_listbook = Some
        [\<lparr>IsSpecificConfig = False, panel_applied = []\<rparr>,
         \<lparr>IsSpecificConfig = True, panel_applied =
            [(\<lparr>PresetIndex = 1, EnablePresets = True, PresetFields = True,
                OtherFields = ''folders''\<rparr>, preset_flags),
             (\<lparr>PresetIndex = 1, EnablePresets = False, PresetFields = True,
                OtherFields = ''folders''\<rparr>, preset_flags)]\<rparr>],
      m_labels = [''BIOS'', ''Speedhacks''],
      m_slider_presets = \<lparr>sl_value = 1, sl_min = 0, sl_max = 5, sl_enabled = False\<rparr>,
      m_check_presets = False,
      m_msg_preset = \<lparr>st_label = ''Preset'', st_colour = ''Green'', st_enabled = False\<rparr>,
      preview_calls = [(1, True), (1, False)]\<rparr>"

section \<open>The loop over the pages\<close>

lemma page_loop_nth:
  "pages \<le> length book \<Longrightarrow>
   \<exists>book'. page_loop preset pages i book = Inr book' \<and> length book' = length book \<and>
     (\<forall>k<length book. book' ! k =
        (if i \<le> k \<and> k < pages then preview_page preset (book ! k) else book ! k))"
proof (induction preset pages i book rule: page_loop.induct)
  case (1 preset pages i book)
  show ?case
  proof (cases "i < pages")
    case False
    then show ?thesis by (subst page_loop.simps) auto
  next
    case True
    with "1.prems" have ib: "i < length book" by simp
    hence gp: "GetPage book i = Some (book ! i)" by (simp add: GetPage_def)
    show ?thesis
    proof (cases "IsSpecificConfig (book ! i)")
      case spec: True
      let ?b = "book[i := Panel_ApplyConfigToGui preset preset_flags (book ! i)]"
      from "1.prems" have "pages \<le> length ?b" by simp
      from "1.IH"(1)[OF True gp spec this]
      obtain book' where r: "page_loop preset pages (Suc i) ?b = Inr book'"
        and l: "length book' = length ?b"
        and n: "\<forall>k<length ?b. book' ! k =
           (if Suc i \<le> k \<and> k < pages then preview_page preset (?b ! k) else ?b ! k)"
        by blast
      have "page_loop preset pages i book = Inr book'"
        using True gp spec r by (subst page_loop.simps) simp
      moreover have "length book' = length book" using l by simp
      moreover have "\<forall>k<length book. book' ! k =
        (if i \<le> k \<and> k < pages then preview_page preset (book ! k) else book ! k)"
      proof (intro allI impI)
        fix k assume k: "k < length book"
        show "book' ! k =
          (if i \<le> k \<and> k < pages then preview_page preset (book ! k) else book ! k)"
        proof (cases "k = i")
          case True
          with n k ib spec \<open>i < pages\<close> show ?thesis by (simp add: preview_page_def)
        next
          case False
          with n k show ?thesis by (auto simp: nth_list_update)
        qed
      qed
      ultimately show ?thesis by blast
    next
      case nospec: False
      from "1.IH"(2)[OF True gp nospec "1.prems"]
      obtain book' where r: "page_loop preset pages (Suc i) book = Inr book'"
        and l: "length book' = length book"
        and n: "\<forall>k<length book. book' ! k =
           (if Suc i \<le> k \<and> k < pages then preview_page preset (book ! k) else book ! k)"
        by blast
      have "page_loop preset pages i book = Inr book'"
        using True gp nospec r by (subst page_loop.simps) simp
      moreover have "\<forall>k<length book. book' ! k =
        (if i \<le> k \<and> k < pages then preview_page preset (book ! k) else book ! k)"
      proof (intro allI impI)
        fix k assume k: "k < length book"
        show "book' ! k =
          (if i \<le> k \<and> k < pages then preview_page preset (book ! k) else book ! k)"
        proof (cases "k = i")
          case True
          with n k nospec show ?thesis by (simp add: preview_page_def)
        next
          case False
          with n k show ?thesis by auto
        qed
      qed
      ultimately show ?thesis using l by blast
    qed
  qed
qed

lemma page_loop_all:
  assumes "pages \<le> length book"
  shows "page_loop preset pages 0 book =
         Inr (map (preview_page preset) (take pages book) @ drop pages book)"
proof -
  from page_loop_nth[OF assms, of preset 0]
  obtain book' where r: "page_loop preset pages 0 book = Inr book'"
    and l: "length book' = length book"
    and n: "\<forall>k<length book. book' ! k =
       (if k < pages then preview_page preset (book ! k) else book ! k)"
    by auto
  have "book' = map (preview_page preset) (take pages book) @ drop pages book"
  proof (rule nth_equalityI)
    show "length book' = length (map (preview_page preset) (take pages book) @ drop pages book)"
      using l assms by simp
  next
    fix k assume "k < length book'"
    with l have k: "k < length book" by simp
    show "book' ! k = (map (preview_page preset) (take pages book) @ drop pages book) ! k"
      using n k assms by (auto simp: nth_append)
  qed
  with r show ?thesis by simp
qed

lemma page_loop_short:
  "length book < pages \<Longrightarrow> i \<le> length book \<Longrightarrow> \<exists>k. page_loop preset pages i book = Inl (PageOutOfRange k)"
proof (induction preset pages i book rule: page_loop.induct)
  case (1 preset pages i book)
  show ?case
  proof (cases "i < length book")
    case False
    with "1.prems" have "i = length book" by simp
    with "1.prems" show ?thesis by (subst page_loop.simps) (simp add: GetPage_def)
  next
    case True
    hence gp: "GetPage book i = Some (book ! i)" by (simp add: GetPage_def)
    from True "1.prems" have ip: "i < pages" by simp
    show ?thesis
    proof (cases "IsSpecificConfig (book ! i)")
      case spec: True
      from "1.IH"(1)[OF ip gp spec] "1.prems" True show ?thesis
        using ip gp spec by (subst page_loop.simps) simp
    next
      case nospec: False
      from "1.IH"(2)[OF ip gp nospec] "1.prems" True show ?thesis
        using ip gp nospec by (subst page_loop.simps) simp
    qed
  qed
qed

section \<open>What \<^verbatim>\<open>UpdateGuiForPreset\<close> returns\<close>

lemma UpdateGuiForPreset_null:
  "m_listbook s = None \<Longrightarrow>
   UpdateGuiForPreset applyPreset i e s =
     Inr (s\<lparr>preview_calls := preview_calls s @ [(i, e)]\<rparr>)"
  by (simp add: UpdateGuiForPreset_def)

lemma UpdateGuiForPreset_book:
  assumes "m_listbook s = Some book" and "length (m_labels s) \<le> length book"
  shows "UpdateGuiForPreset applyPreset i e s =
     Inr (s\<lparr>preview_calls := preview_calls s @ [(i, e)],
            m_listbook := Some
              (map (preview_page ((applyPreset i False (g_Conf s))\<lparr>EnablePresets := e\<rparr>))
                   (take (length (m_labels s)) book)
               @ drop (length (m_labels s)) book),
            main_frame := map_option
              (MainFrame_ApplyConfigToGui
                 ((applyPreset i False (g_Conf s))\<lparr>EnablePresets := True\<rparr>) preset_flags)
              (main_frame s)\<rparr>)"
  using assms
  by (simp add: UpdateGuiForPreset_def Let_def page_loop_all split: option.split)

lemma UpdateGuiForPreset_short:
  assumes "m_listbook s = Some book" and "length book < length (m_labels s)"
  shows "\<exists>k. UpdateGuiForPreset applyPreset i e s = Inl (PageOutOfRange k)"
proof -
  from page_loop_short[OF assms(2), of 0 "(applyPreset i False (g_Conf s))\<lparr>EnablePresets := e\<rparr>"]
  obtain k where "page_loop ((applyPreset i False (g_Conf s))\<lparr>EnablePresets := e\<rparr>)
      (length (m_labels s)) 0 book = Inl (PageOutOfRange k)" by auto
  with assms(1) show ?thesis by (auto simp add: UpdateGuiForPreset_def Let_def)
qed

lemma UpdateGuiForPreset_g_Conf:
  "UpdateGuiForPreset applyPreset i e s = Inr s' \<Longrightarrow> g_Conf s' = g_Conf s"
  by (auto simp: UpdateGuiForPreset_def Let_def split: option.splits sum.splits)

lemma UpdateGuiForPreset_returns:
  assumes "pages_ok s"
  shows "\<exists>s'. UpdateGuiForPreset applyPreset i e s = Inr s'"
proof (cases "m_listbook s")
  case None
  then show ?thesis by (simp add: UpdateGuiForPreset_null)
next
  case (Some book)
  with assms have "length (m_labels s) \<le> length book" by (simp add: pages_ok_def)
  from UpdateGuiForPreset_book[OF Some this] show ?thesis by blast
qed

section \<open>What a preview delivers\<close>

lemma newer_same: "newer xs xs = []"
  by (simp add: newer_def)

lemma newer_append: "newer xs (xs @ ys) = ys"
  by (simp add: newer_def)

lemma map2_newer_same: "map2 newer (map f xs) (map f xs) = map (\<lambda>x. []) xs"
  by (induction xs) (simp_all add: newer_same)

lemma map2_newer_preview:
  "map2 newer (map panel_applied xs) (map panel_applied (map (preview_page p) xs)) =
     map (\<lambda>x. if IsSpecificConfig x then [(p, preset_flags)] else []) xs"
  by (induction xs)
     (simp_all add: preview_page_def Panel_ApplyConfigToGui_def newer_same newer_append)

lemma map2_newer_book:
  "map2 newer (map panel_applied (xs @ ys))
              (map panel_applied (map (preview_page p) xs @ ys)) =
     map (\<lambda>x. if IsSpecificConfig x then [(p, preset_flags)] else []) xs @ map (\<lambda>x. []) ys"
  using map2_newer_preview [of xs p] map2_newer_same [of panel_applied ys]
  by simp

lemma IsSpecificConfig_preview_page [simp]:
  "IsSpecificConfig (preview_page p x) = IsSpecificConfig x"
  by (simp add: preview_page_def Panel_ApplyConfigToGui_def)

lemma UpdateGuiForPreset_delivered:
  assumes "m_listbook s = Some book" and "length (m_labels s) \<le> length book"
    and "UpdateGuiForPreset applyPreset i e s = Inr s'"
  shows "delivered s s' =
     ((case main_frame s of
         None \<Rightarrow> []
       | Some mf \<Rightarrow> [((panel_snapshot applyPreset i e s)\<lparr>EnablePresets := True\<rparr>, preset_flags)]),
      map (\<lambda>x. if IsSpecificConfig x
                then [(panel_snapshot applyPreset i e s, preset_flags)] else [])
          (take (length (m_labels s)) book)
      @ map (\<lambda>x. []) (drop (length (m_labels s)) book))"
proof -
  let ?n = "length (m_labels s)"
  let ?p = "panel_snapshot applyPreset i e s"
  from UpdateGuiForPreset_book [OF assms(1,2), of applyPreset i e] assms(3)
  have b: "m_listbook s' = Some (map (preview_page ?p) (take ?n book) @ drop ?n book)"
    and f: "main_frame s' = map_option
              (MainFrame_ApplyConfigToGui (?p\<lparr>EnablePresets := True\<rparr>) preset_flags)
              (main_frame s)"
    by (auto simp: panel_snapshot_def)
  have "newer (menu_received s) (menu_received s') =
     (case main_frame s of
         None \<Rightarrow> []
       | Some mf \<Rightarrow> [(?p\<lparr>EnablePresets := True\<rparr>, preset_flags)])"
    using f
    by (simp add: menu_received_def MainFrame_ApplyConfigToGui_def newer_same newer_append
          split: option.split)
  moreover have "map2 newer (panels_received s) (panels_received s') =
      map (\<lambda>x. if IsSpecificConfig x then [(?p, preset_flags)] else []) (take ?n book)
      @ map (\<lambda>x. []) (drop ?n book)"
  proof -
    have "panels_received s = map panel_applied (take ?n book @ drop ?n book)"
      using assms(1) by (simp add: panels_received_def)
    moreover have "panels_received s' =
      map panel_applied (map (preview_page ?p) (take ?n book) @ drop ?n book)"
      using b by (simp add: panels_received_def)
    ultimately show ?thesis
      using map2_newer_book [of "take ?n book" "drop ?n book" ?p] by simp
  qed
  ultimately show ?thesis by (simp add: delivered_def)
qed

section \<open>What a session preserves\<close>

lemma pages_ok_cong:
  "m_listbook s' = m_listbook s \<Longrightarrow> m_labels s' = m_labels s \<Longrightarrow> pages_ok s' = pages_ok s"
  by (simp add: pages_ok_def split: option.split)

lemma UpdateGuiForPreset_frame:
  assumes "pages_ok s"
  shows "\<exists>s'. UpdateGuiForPreset applyPreset i e s = Inr s' \<and> pages_ok s' \<and>
           g_Conf s' = g_Conf s \<and>
           m_slider_presets s' = m_slider_presets s \<and>
           m_check_presets s' = m_check_presets s \<and>
           preview_calls s' = preview_calls s @ [(i, e)] \<and>
           map_option menu_commits (main_frame s') = map_option menu_commits (main_frame s)"
proof (cases "m_listbook s")
  case None
  then show ?thesis
    using assms by (simp add: UpdateGuiForPreset_null pages_ok_def)
next
  case (Some book)
  with assms have n: "length (m_labels s) \<le> length book" by (simp add: pages_ok_def)
  show ?thesis
    unfolding UpdateGuiForPreset_book [OF Some n]
    using n
    by (simp add: pages_ok_def option.map_comp o_def MainFrame_ApplyConfigToGui_def)
qed

lemma dispatch_frame:
  assumes "pages_ok s"
    and "sl_min (m_slider_presets s) \<le> sl_max (m_slider_presets s)"
  shows "\<exists>s'. dispatch applyPreset presetText ev s = Inr s' \<and> pages_ok s' \<and>
           g_Conf s' = g_Conf s \<and>
           sl_min (m_slider_presets s') = sl_min (m_slider_presets s) \<and>
           sl_max (m_slider_presets s') = sl_max (m_slider_presets s) \<and>
           (sl_min (m_slider_presets s) \<le> sl_value (m_slider_presets s) \<and>
            sl_value (m_slider_presets s) \<le> sl_max (m_slider_presets s) \<longrightarrow>
            sl_min (m_slider_presets s') \<le> sl_value (m_slider_presets s') \<and>
            sl_value (m_slider_presets s') \<le> sl_max (m_slider_presets s')) \<and>
           preview_calls s' =
             preview_calls s @ [(sl_value (m_slider_presets s'), m_check_presets s')] \<and>
           map_option menu_commits (main_frame s') = map_option menu_commits (main_frame s)"
proof (cases ev)
  case (Slider_moved v)
  let ?s1 = "s\<lparr>m_slider_presets := wxSlider_moved v (m_slider_presets s)\<rparr>"
  obtain pl c where pc: "presetText (sl_value (m_slider_presets ?s1)) ('''', '''') = (pl, c)"
    by (cases "presetText (sl_value (m_slider_presets ?s1)) ('''', '''')") auto
  let ?s2 = "?s1\<lparr>m_msg_preset := (m_msg_preset ?s1)\<lparr>st_label := pl, st_colour := c\<rparr>\<rparr>"
  have ok: "pages_ok ?s2" using assms(1) pages_ok_cong [of ?s2 s] by simp
  from UpdateGuiForPreset_frame [OF ok, of applyPreset "sl_value (m_slider_presets ?s2)"
      "m_check_presets ?s2"]
  obtain s' where r: "UpdateGuiForPreset applyPreset (sl_value (m_slider_presets ?s2))
        (m_check_presets ?s2) ?s2 = Inr s'"
    and p: "pages_ok s'" "g_Conf s' = g_Conf ?s2" "m_slider_presets s' = m_slider_presets ?s2"
      "m_check_presets s' = m_check_presets ?s2"
      "preview_calls s' = preview_calls ?s2 @
         [(sl_value (m_slider_presets ?s2), m_check_presets ?s2)]"
      "map_option menu_commits (main_frame s') = map_option menu_commits (main_frame ?s2)"
    by blast
  have "dispatch applyPreset presetText ev s = Inr s'"
    using Slider_moved pc r by (simp add: dispatch_def Preset_Scroll_def Let_def)
  then show ?thesis
    using p assms(2) by (simp add: wxSlider_moved_def)
next
  case Checkbox_clicked
  let ?s1 = "s\<lparr>m_check_presets := \<not> m_check_presets s\<rparr>"
  let ?s2 = "?s1\<lparr>m_slider_presets := (m_slider_presets ?s1)\<lparr>sl_enabled := m_check_presets ?s1\<rparr>,
                  m_msg_preset := (m_msg_preset ?s1)\<lparr>st_enabled := m_check_presets ?s1\<rparr>\<rparr>"
  have ok: "pages_ok ?s2" using assms(1) pages_ok_cong [of ?s2 s] by simp
  from UpdateGuiForPreset_frame [OF ok, of applyPreset "sl_value (m_slider_presets ?s2)"
      "m_check_presets ?s2"]
  obtain s' where r: "UpdateGuiForPreset applyPreset (sl_value (m_slider_presets ?s2))
        (m_check_presets ?s2) ?s2 = Inr s'"
    and p: "pages_ok s'" "g_Conf s' = g_Conf ?s2" "m_slider_presets s' = m_slider_presets ?s2"
      "m_check_presets s' = m_check_presets ?s2"
      "preview_calls s' = preview_calls ?s2 @
         [(sl_value (m_slider_presets ?s2), m_check_presets ?s2)]"
      "map_option menu_commits (main_frame s') = map_option menu_commits (main_frame ?s2)"
    by blast
  have "dispatch applyPreset presetText ev s = Inr s'"
    using Checkbox_clicked r by (simp add: dispatch_def Presets_Toggled_def Let_def)
  then show ?thesis
    using p by simp
qed

lemma run_events_frame:
  assumes "pages_ok s"
    and "sl_min (m_slider_presets s) \<le> sl_value (m_slider_presets s)"
    and "sl_value (m_slider_presets s) \<le> sl_max (m_slider_presets s)"
  shows "\<exists>s'. run_events applyPreset presetText evs s = Inr s' \<and> pages_ok s' \<and>
           g_Conf s' = g_Conf s \<and>
           sl_min (m_slider_presets s') = sl_min (m_slider_presets s) \<and>
           sl_max (m_slider_presets s') = sl_max (m_slider_presets s) \<and>
           sl_min (m_slider_presets s') \<le> sl_value (m_slider_presets s') \<and>
           sl_value (m_slider_presets s') \<le> sl_max (m_slider_presets s') \<and>
           length (preview_calls s') = length (preview_calls s) + length evs \<and>
           (if evs = [] then s' = s
            else last (preview_calls s') =
                   (sl_value (m_slider_presets s'), m_check_presets s')) \<and>
           map_option menu_commits (main_frame s') = map_option menu_commits (main_frame s)"
  using assms
proof (induction evs arbitrary: s)
  case Nil
  then show ?case by simp
next
  case (Cons ev evs)
  from Cons.prems have mm: "sl_min (m_slider_presets s) \<le> sl_max (m_slider_presets s)"
    by simp
  from dispatch_frame [OF Cons.prems(1) mm, of applyPreset presetText ev] Cons.prems(2,3)
  obtain s1 where d: "dispatch applyPreset presetText ev s = Inr s1"
    and ok1: "pages_ok s1" and g1: "g_Conf s1 = g_Conf s"
    and lo1: "sl_min (m_slider_presets s1) = sl_min (m_slider_presets s)"
    and hi1: "sl_max (m_slider_presets s1) = sl_max (m_slider_presets s)"
    and r1: "sl_min (m_slider_presets s1) \<le> sl_value (m_slider_presets s1)"
            "sl_value (m_slider_presets s1) \<le> sl_max (m_slider_presets s1)"
    and c1: "preview_calls s1 =
             preview_calls s @ [(sl_value (m_slider_presets s1), m_check_presets s1)]"
    and m1: "map_option menu_commits (main_frame s1) = map_option menu_commits (main_frame s)"
    by blast
  from Cons.IH [OF ok1 r1]
  obtain s' where r: "run_events applyPreset presetText evs s1 = Inr s'"
    and ok': "pages_ok s'" and g': "g_Conf s' = g_Conf s1"
    and lo': "sl_min (m_slider_presets s') = sl_min (m_slider_presets s1)"
    and hi': "sl_max (m_slider_presets s') = sl_max (m_slider_presets s1)"
    and r': "sl_min (m_slider_presets s') \<le> sl_value (m_slider_presets s')"
            "sl_value (m_slider_presets s') \<le> sl_max (m_slider_presets s')"
    and n': "length (preview_calls s') = length (preview_calls s1) + length evs"
    and l': "if evs = [] then s' = s1
            else last (preview_calls s') =
                   (sl_value (m_slider_presets s'), m_check_presets s')"
    and m': "map_option menu_commits (main_frame s') = map_option menu_commits (main_frame s1)"
    by blast
  have run: "run_events applyPreset presetText (ev # evs) s = Inr s'"
    using d r by simp
  have last': "last (preview_calls s') = (sl_value (m_slider_presets s'), m_check_presets s')"
    using l' c1 by (cases "evs = []") simp_all
  show ?case
    using run ok' g' g1 lo' lo1 hi' hi1 r' n' c1 last' m' m1 by simp
qed

lemma AddPresetsControl_frame:
  "pages_ok (AddPresetsControl presetText M s) = pages_ok s \<and>
   g_Conf (AddPresetsControl presetText M s) = g_Conf s \<and>
   main_frame (AddPresetsControl presetText M s) = main_frame s \<and>
   preview_calls (AddPresetsControl presetText M s) = preview_calls s \<and>
   m_check_presets (AddPresetsControl presetText M s) = EnablePresets (g_Conf s) \<and>
   sl_min (m_slider_presets (AddPresetsControl presetText M s)) = 0 \<and>
   sl_max (m_slider_presets (AddPresetsControl presetText M s)) = M \<and>
   sl_value (m_slider_presets (AddPresetsControl presetText M s)) =
     max 0 (min M (PresetIndex (g_Conf s)))"
  by (simp add: AddPresetsControl_def Let_def wxSlider_new_def pages_ok_def
        split: prod.split option.split)

lemma Apply_frame:
  "g_Conf (Apply s) =
     (g_Conf s)\<lparr>EnablePresets := m_check_presets s,
                PresetIndex := sl_value (m_slider_presets s),
                PresetFields := (case main_frame s of
                                   None \<Rightarrow> PresetFields (g_Conf s)
                                 | Some mf \<Rightarrow> menu_pending mf)\<rparr> \<and>
   preview_calls (Apply s) = preview_calls s \<and>
   main_frame (Apply s) =
     map_option (\<lambda>mf. mf\<lparr>menu_commits := Suc (menu_commits mf)\<rparr>) (main_frame s)"
  by (simp add: Apply_def Let_def CommitPreset_noTrigger_def split: option.split)

lemma ex_state_pending_reached:
  "run_events (IsOkApplyPreset ex_bundle) ex_text [Checkbox_clicked, Checkbox_clicked]
     (AddPresetsControl ex_text 5 ex_state_off) = Inr ex_state_pending"
  by (simp add: dispatch_def Presets_Toggled_def AddPresetsControl_def ex_state_off_def
      ex_state_pending_def wxSlider_new_def ex_text_def UpdateGuiForPreset_def Let_def
      page_loop_all preview_page_def Panel_ApplyConfigToGui_def MainFrame_ApplyConfigToGui_def
      IsOkApplyPreset_def ex_bundle_def)

section \<open>The store is written by \<^verbatim>\<open>Apply\<close> alone\<close>

text \<open>
  Claim C1. Whatever the preset index \<open>i\<close> (the valid ones, from 0 to the largest preset
  index, among them) and whatever the flag \<open>e\<close>: in a dialog that has a page for each of
  its labels, \<^verbatim>\<open>UpdateGuiForPreset(i, e)\<close> returns and \<^verbatim>\<open>g_Conf\<close> is afterwards what it was
  before; and \<^verbatim>\<open>Cancel()\<close> leaves \<^verbatim>\<open>g_Conf\<close> what it was. Of the three operations only
  \<^verbatim>\<open>Apply()\<close> is left to write the store.
\<close>

theorem preview_and_cancel_keep_g_Conf:
  assumes "pages_ok s"
  shows "(\<exists>s'. UpdateGuiForPreset applyPreset i e s = Inr s' \<and> g_Conf s' = g_Conf s)
         \<and> g_Conf (Cancel s) = g_Conf s"
proof
  from UpdateGuiForPreset_returns[OF assms]
  obtain s' where r: "UpdateGuiForPreset applyPreset i e s = Inr s'" by blast
  with UpdateGuiForPreset_g_Conf[OF r]
  show "\<exists>s'. UpdateGuiForPreset applyPreset i e s = Inr s' \<and> g_Conf s' = g_Conf s" by blast
next
  show "g_Conf (Cancel s) = g_Conf s"
    by (simp add: Cancel_def split: option.split)
qed

theorem preview_and_cancel_keep_g_Conf_witness:
  "pages_ok ex_state \<and>
   (\<exists>s'. UpdateGuiForPreset (IsOkApplyPreset ex_bundle) 3 False ex_state = Inr s' \<and>
      g_Conf s' = g_Conf ex_state) \<and>
   g_Conf (Cancel ex_state) = g_Conf ex_state"
  using preview_and_cancel_keep_g_Conf [of ex_state "IsOkApplyPreset ex_bundle" 3 False]
  by (simp add: pages_ok_def ex_state_def)

section \<open>Missing collaborators\<close>

text \<open>
  Claim C10. For every \<open>i\<close> and \<open>e\<close>: when \<^verbatim>\<open>m_listbook\<close> is null, \<^verbatim>\<open>UpdateGuiForPreset(i, e)\<close>
  returns at once; the pages and the main frame are what they were (only the record of
  the call is added). When there is no main frame, \<^verbatim>\<open>Apply()\<close> writes its two fields and
  does nothing else, and \<^verbatim>\<open>Cancel()\<close> does nothing.
\<close>

theorem missing_collaborators_are_skipped:
  "(m_listbook s = None \<longrightarrow>
      UpdateGuiForPreset applyPreset i e s =
        Inr (s\<lparr>preview_calls := preview_calls s @ [(i, e)]\<rparr>)) \<and>
   (main_frame s = None \<longrightarrow>
      Apply s = s\<lparr>g_Conf := (g_Conf s)\<lparr>EnablePresets := m_check_presets s,
                                        PresetIndex := sl_value (m_slider_presets s)\<rparr>\<rparr> \<and>
      Cancel s = s)"
  by (simp add: UpdateGuiForPreset_null Apply_def Cancel_def Let_def)

theorem missing_collaborators_are_skipped_witness:
  "m_listbook ex_state_nobook = None \<and>
   UpdateGuiForPreset (IsOkApplyPreset ex_bundle) 3 False ex_state_nobook =
     Inr (ex_state_nobook\<lparr>preview_calls := [(3, False)]\<rparr>) \<and>
   main_frame ex_state_noframe = None \<and>
   Apply ex_state_noframe = ex_state_noframe \<and>
   Cancel ex_state_noframe = ex_state_noframe"
  using missing_collaborators_are_skipped [of ex_state_nobook "IsOkApplyPreset ex_bundle" 3 False]
    missing_collaborators_are_skipped [of ex_state_noframe "IsOkApplyPreset ex_bundle" 3 False]
  by (simp add: ex_state_nobook_def ex_state_noframe_def ex_state_def)

section \<open>Which pages receive the snapshot\<close>

text \<open>
  Claim C6. In a dialog with a listbook that has a page for each label,
  \<^verbatim>\<open>UpdateGuiForPreset(i, e)\<close> returns a listbook of the same length in which a page has
  received the snapshot (once, with both flags) if it has a label and
  \<^verbatim>\<open>IsSpecificConfig()\<close> holds of it, and is the page it was otherwise.
\<close>

theorem snapshot_delivered_iff_specific:
  assumes "m_listbook s = Some book" and "length (m_labels s) \<le> length book"
  shows "\<exists>s' book'.
           UpdateGuiForPreset applyPreset i e s = Inr s' \<and>
           m_listbook s' = Some book' \<and> length book' = length book \<and>
           (\<forall>k<length book.
              book' ! k =
                (if k < length (m_labels s) \<and> IsSpecificConfig (book ! k)
                 then (book ! k)\<lparr>panel_applied := panel_applied (book ! k) @
                        [(panel_snapshot applyPreset i e s, preset_flags)]\<rparr>
                 else book ! k))"
proof -
  let ?n = "length (m_labels s)"
  let ?p = "panel_snapshot applyPreset i e s"
  let ?book' = "map (preview_page ?p) (take ?n book) @ drop ?n book"
  from UpdateGuiForPreset_book [OF assms, of applyPreset i e]
  obtain s' where r: "UpdateGuiForPreset applyPreset i e s = Inr s'"
    and b: "m_listbook s' = Some ?book'"
    by (simp add: panel_snapshot_def)
  have l: "length ?book' = length book" using assms(2) by simp
  have "\<forall>k<length book. ?book' ! k =
          (if k < ?n \<and> IsSpecificConfig (book ! k)
           then (book ! k)\<lparr>panel_applied := panel_applied (book ! k) @ [(?p, preset_flags)]\<rparr>
           else book ! k)"
    using assms(2)
    by (auto simp: nth_append preview_page_def Panel_ApplyConfigToGui_def)
  with r b l show ?thesis by blast
qed

theorem snapshot_delivered_iff_specific_witness:
  "m_listbook ex_state = Some [\<lparr>IsSpecificConfig = False, panel_applied = []\<rparr>,
                               \<lparr>IsSpecificConfig = True, panel_applied = []\<rparr>] \<and>
   length (m_labels ex_state) \<le> 2 \<and>
   (\<exists>s' book'.
      UpdateGuiForPreset (IsOkApplyPreset ex_bundle) 3 False ex_state = Inr s' \<and>
      m_listbook s' = Some book' \<and> length book' = 2 \<and>
      book' ! 0 = \<lparr>IsSpecificConfig = False, panel_applied = []\<rparr> \<and>
      book' ! 1 = \<lparr>IsSpecificConfig = True, panel_applied =
         [(\<lparr>PresetIndex = 3, EnablePresets = False, PresetFields = True,
             OtherFields = ''folders''\<rparr>, preset_flags)]\<rparr>)"
proof -
  define book :: "(bool, string) ConfigPanel list"
    where "book = [\<lparr>IsSpecificConfig = False, panel_applied = []\<rparr>,
                   \<lparr>IsSpecificConfig = True, panel_applied = []\<rparr>]"
  have b: "m_listbook ex_state = Some book"
    and n: "length (m_labels ex_state) \<le> length book"
    by (simp_all add: ex_state_def book_def)
  from snapshot_delivered_iff_specific [OF b n, of "IsOkApplyPreset ex_bundle" 3 False]
  obtain s' book' where
    r: "UpdateGuiForPreset (IsOkApplyPreset ex_bundle) 3 False ex_state = Inr s'"
    and b': "m_listbook s' = Some book'" and l: "length book' = length book"
    and k: "\<And>k. k < length book \<Longrightarrow> book' ! k =
       (if k < length (m_labels ex_state) \<and> IsSpecificConfig (book ! k)
        then (book ! k)\<lparr>panel_applied := panel_applied (book ! k) @
               [(panel_snapshot (IsOkApplyPreset ex_bundle) 3 False ex_state, preset_flags)]\<rparr>
        else book ! k)"
    by blast
  have k0: "book' ! 0 = \<lparr>IsSpecificConfig = False, panel_applied = []\<rparr>"
    using k [of 0] by (simp add: book_def)
  have k1: "book' ! 1 = \<lparr>IsSpecificConfig = True, panel_applied =
         [(\<lparr>PresetIndex = 3, EnablePresets = False, PresetFields = True,
             OtherFields = ''folders''\<rparr>, preset_flags)]\<rparr>"
    using k [of 1]
    by (simp add: book_def ex_state_def panel_snapshot_def IsOkApplyPreset_def ex_bundle_def)
  from l have l2: "length book' = 2" by (simp add: book_def)
  from b n have "m_listbook ex_state = Some [\<lparr>IsSpecificConfig = False, panel_applied = []\<rparr>,
                               \<lparr>IsSpecificConfig = True, panel_applied = []\<rparr>]"
    and "length (m_labels ex_state) \<le> 2" by (simp_all add: book_def)
  with r b' l2 k0 k1 show ?thesis by blast
qed

section \<open>How the snapshot for the panels is built\<close>

text \<open>
  Claim C5. In a dialog with a listbook that has a page for each label,
  \<^verbatim>\<open>UpdateGuiForPreset(i, e)\<close> leaves \<^verbatim>\<open>g_Conf\<close> alone and visits the pages with one
  configuration \<open>p\<close>: the copy of \<^verbatim>\<open>g_Conf\<close>, with preset \<open>i\<close> applied by
  \<^verbatim>\<open>IsOkApplyPreset\<close>, with \<^verbatim>\<open>EnablePresets\<close> then overwritten by \<open>e\<close>. So \<open>p\<close> has
  \<^verbatim>\<open>PresetIndex = i\<close>, \<^verbatim>\<open>EnablePresets = e\<close>, the bundle of preset \<open>i\<close>, and the store's
  remaining fields.
\<close>

theorem panel_snapshot_built_from_preset:
  assumes "m_listbook s = Some book" and "length (m_labels s) \<le> length book"
  shows "\<exists>s' p.
           UpdateGuiForPreset (IsOkApplyPreset bundle) i e s = Inr s' \<and>
           g_Conf s' = g_Conf s \<and>
           m_listbook s' = Some
             (map (preview_page p) (take (length (m_labels s)) book)
              @ drop (length (m_labels s)) book) \<and>
           p = (IsOkApplyPreset bundle i False (g_Conf s))\<lparr>EnablePresets := e\<rparr> \<and>
           p = \<lparr>PresetIndex = i, EnablePresets = e, PresetFields = bundle i,
                OtherFields = OtherFields (g_Conf s)\<rparr>"
  using UpdateGuiForPreset_book [OF assms, of "IsOkApplyPreset bundle" i e]
  by (simp add: IsOkApplyPreset_def)

theorem panel_snapshot_built_from_preset_witness:
  "m_listbook ex_state = Some [\<lparr>IsSpecificConfig = False, panel_applied = []\<rparr>,
                               \<lparr>IsSpecificConfig = True, panel_applied = []\<rparr>] \<and>
   length (m_labels ex_state) \<le> 2 \<and>
   (\<exists>s' p.
      UpdateGuiForPreset (IsOkApplyPreset ex_bundle) 3 False ex_state = Inr s' \<and>
      g_Conf s' = g_Conf ex_state \<and>
      m_listbook s' = Some [\<lparr>IsSpecificConfig = False, panel_applied = []\<rparr>,
                            \<lparr>IsSpecificConfig = True, panel_applied = [(p, preset_flags)]\<rparr>] \<and>
      p = \<lparr>PresetIndex = 3, EnablePresets = False, PresetFields = True,
           OtherFields = ''folders''\<rparr>)"
  using panel_snapshot_built_from_preset [of ex_state
      "[\<lparr>IsSpecificConfig = False, panel_applied = []\<rparr>,
        \<lparr>IsSpecificConfig = True, panel_applied = []\<rparr>]" ex_bundle 3 False]
  by (simp add: ex_state_def preview_page_def Panel_ApplyConfigToGui_def ex_bundle_def
        IsOkApplyPreset_def)

section \<open>The snapshot for the menus\<close>

text \<open>
  Claim C3. In a dialog with a listbook that has a page for each label, and with a main
  frame: for every preset index \<open>i\<close> and every flag \<open>e\<close>, \<^verbatim>\<open>UpdateGuiForPreset(i, e)\<close> hands
  the main frame exactly one configuration; its \<^verbatim>\<open>EnablePresets\<close> is true whatever \<open>e\<close> is,
  and in every other field it is the configuration handed to the panels.
\<close>

theorem menu_snapshot_always_enabled:
  assumes "m_listbook s = Some book" and "length (m_labels s) \<le> length book"
    and "main_frame s = Some mf"
  shows "\<exists>s' mf' c.
           UpdateGuiForPreset applyPreset i e s = Inr s' \<and>
           main_frame s' = Some mf' \<and>
           menu_applied mf' = menu_applied mf @ [(c, preset_flags)] \<and>
           EnablePresets c = True \<and>
           c = (panel_snapshot applyPreset i e s)\<lparr>EnablePresets := True\<rparr>"
  using UpdateGuiForPreset_book [OF assms(1,2), of applyPreset i e] assms(3)
  by (simp add: MainFrame_ApplyConfigToGui_def panel_snapshot_def)

theorem menu_snapshot_always_enabled_witness:
  "m_listbook ex_state = Some [\<lparr>IsSpecificConfig = False, panel_applied = []\<rparr>,
                               \<lparr>IsSpecificConfig = True, panel_applied = []\<rparr>] \<and>
   length (m_labels ex_state) \<le> 2 \<and>
   main_frame ex_state = Some \<lparr>menu_applied = [], menu_pending = False, menu_commits = 0\<rparr> \<and>
   (\<exists>s' mf' c.
      UpdateGuiForPreset (IsOkApplyPreset ex_bundle) 3 False ex_state = Inr s' \<and>
      main_frame s' = Some mf' \<and>
      menu_applied mf' = [(c, preset_flags)] \<and>
      EnablePresets c = True \<and>
      c = \<lparr>PresetIndex = 3, EnablePresets = True, PresetFields = True,
           OtherFields = ''folders''\<rparr>)"
  using menu_snapshot_always_enabled [of ex_state
      "[\<lparr>IsSpecificConfig = False, panel_applied = []\<rparr>,
        \<lparr>IsSpecificConfig = True, panel_applied = []\<rparr>]"
      "\<lparr>menu_applied = [], menu_pending = False, menu_commits = 0\<rparr>"
      "IsOkApplyPreset ex_bundle" 3 False]
  by (simp add: ex_state_def panel_snapshot_def IsOkApplyPreset_def ex_bundle_def)

section \<open>Previewing twice\<close>

text \<open>
  Claim C7. In a dialog that has a page for each of its labels, two calls of
  \<^verbatim>\<open>UpdateGuiForPreset(i, e)\<close> in a row both return, and the second hands the main frame
  and every page exactly what the first handed them.
\<close>

theorem preview_twice_delivers_the_same:
  assumes "pages_ok s"
  shows "\<exists>s1 s2.
           UpdateGuiForPreset applyPreset i e s = Inr s1 \<and>
           UpdateGuiForPreset applyPreset i e s1 = Inr s2 \<and>
           delivered s1 s2 = delivered s s1"
proof (cases "m_listbook s")
  case None
  let ?s1 = "s\<lparr>preview_calls := preview_calls s @ [(i, e)]\<rparr>"
  let ?s2 = "?s1\<lparr>preview_calls := preview_calls ?s1 @ [(i, e)]\<rparr>"
  have "UpdateGuiForPreset applyPreset i e s = Inr ?s1"
    using None by (simp add: UpdateGuiForPreset_null)
  moreover have "UpdateGuiForPreset applyPreset i e ?s1 = Inr ?s2"
    using None by (simp add: UpdateGuiForPreset_null)
  moreover have "delivered ?s1 ?s2 = delivered s ?s1"
    using None by (simp add: delivered_def menu_received_def panels_received_def)
  ultimately show ?thesis by blast
next
  case (Some book)
  let ?n = "length (m_labels s)"
  let ?p = "panel_snapshot applyPreset i e s"
  let ?book1 = "map (preview_page ?p) (take ?n book) @ drop ?n book"
  from assms Some have n: "?n \<le> length book" by (simp add: pages_ok_def)
  from UpdateGuiForPreset_book [OF Some n, of applyPreset i e]
  obtain s1 where r1: "UpdateGuiForPreset applyPreset i e s = Inr s1"
    and b1: "m_listbook s1 = Some ?book1"
    and l1: "m_labels s1 = m_labels s"
    and g1: "g_Conf s1 = g_Conf s"
    and f1: "main_frame s1 = map_option
              (MainFrame_ApplyConfigToGui (?p\<lparr>EnablePresets := True\<rparr>) preset_flags)
              (main_frame s)"
    by (simp add: panel_snapshot_def)
  have n1: "length (m_labels s1) \<le> length ?book1" using l1 n by simp
  from UpdateGuiForPreset_book [OF b1 n1, of applyPreset i e]
  obtain s2 where r2: "UpdateGuiForPreset applyPreset i e s1 = Inr s2" by blast
  have p1: "panel_snapshot applyPreset i e s1 = ?p"
    using g1 by (simp add: panel_snapshot_def)
  have t: "take ?n ?book1 = map (preview_page ?p) (take ?n book)"
    and d: "drop ?n ?book1 = drop ?n book"
    using n by simp_all
  have "delivered s1 s2 = delivered s s1"
    unfolding UpdateGuiForPreset_delivered [OF b1 n1 r2]
      UpdateGuiForPreset_delivered [OF Some n r1]
    using f1 n by (simp add: p1 l1 o_def min_absorb2 split: option.split)
  with r1 r2 show ?thesis by blast
qed

theorem preview_twice_delivers_the_same_witness:
  "pages_ok ex_state \<and>
   (\<exists>s1 s2.
      UpdateGuiForPreset (IsOkApplyPreset ex_bundle) 3 False ex_state = Inr s1 \<and>
      UpdateGuiForPreset (IsOkApplyPreset ex_bundle) 3 False s1 = Inr s2 \<and>
      delivered s1 s2 = delivered ex_state s1 \<and>
      delivered ex_state s1 =
        ([(\<lparr>PresetIndex = 3, EnablePresets = True, PresetFields = True,
             OtherFields = ''folders''\<rparr>, preset_flags)],
         [[], [(\<lparr>PresetIndex = 3, EnablePresets = False, PresetFields = True,
                  OtherFields = ''folders''\<rparr>, preset_flags)]]))"
proof -
  have ok: "pages_ok ex_state" by (simp add: pages_ok_def ex_state_def)
  from preview_twice_delivers_the_same [OF ok, of "IsOkApplyPreset ex_bundle" 3 False]
  obtain s1 s2 where
    r1: "UpdateGuiForPreset (IsOkApplyPreset ex_bundle) 3 False ex_state = Inr s1"
    and r2: "UpdateGuiForPreset (IsOkApplyPreset ex_bundle) 3 False s1 = Inr s2"
    and eq: "delivered s1 s2 = delivered ex_state s1"
    by blast
  have b: "m_listbook ex_state = Some [\<lparr>IsSpecificConfig = False, panel_applied = []\<rparr>,
                               \<lparr>IsSpecificConfig = True, panel_applied = []\<rparr>]"
    by (simp add: ex_state_def)
  have "delivered ex_state s1 =
        ([(\<lparr>PresetIndex = 3, EnablePresets = True, PresetFields = True,
             OtherFields = ''folders''\<rparr>, preset_flags)],
         [[], [(\<lparr>PresetIndex = 3, EnablePresets = False, PresetFields = True,
                  OtherFields = ''folders''\<rparr>, preset_flags)]])"
    using UpdateGuiForPreset_delivered [OF b _ r1]
    by (simp add: ex_state_def panel_snapshot_def IsOkApplyPreset_def ex_bundle_def)
  with ok r1 r2 eq show ?thesis by blast
qed

section \<open>\<^verbatim>\<open>Cancel\<close> hands the store to the menus\<close>

text \<open>
  Claim C4, as the code has it. With a main frame, \<^verbatim>\<open>Cancel()\<close> hands the main frame the
  current \<^verbatim>\<open>g_Conf\<close> itself, unmodified and not a speculative copy, and leaves \<^verbatim>\<open>g_Conf\<close>
  as it was. The \<^verbatim>\<open>EnablePresets\<close> the menus receive is the store's own: it is not forced
  to true. With the store at \<open>presetIndex = 1, presetsEnabled = true\<close> the menus receive
  \<open>(1, true)\<close>, as the spec's scenario says.
\<close>

theorem Cancel_rebroadcasts_store:
  assumes "main_frame s = Some mf"
  shows "\<exists>mf'. main_frame (Cancel s) = Some mf' \<and>
           menu_applied mf' = menu_applied mf @ [(g_Conf s, preset_flags)] \<and>
           g_Conf (Cancel s) = g_Conf s"
  using assms by (simp add: Cancel_def MainFrame_ApplyConfigToGui_def)

theorem Cancel_rebroadcasts_store_witness:
  "main_frame ex_state = Some \<lparr>menu_applied = [], menu_pending = False, menu_commits = 0\<rparr> \<and>
   (\<exists>mf'. main_frame (Cancel ex_state) = Some mf' \<and>
      menu_applied mf' =
        [(\<lparr>PresetIndex = 1, EnablePresets = True, PresetFields = False,
            OtherFields = ''folders''\<rparr>, preset_flags)] \<and>
      g_Conf (Cancel ex_state) = g_Conf ex_state)"
  using Cancel_rebroadcasts_store [of ex_state
      "\<lparr>menu_applied = [], menu_pending = False, menu_commits = 0\<rparr>"]
  by (simp add: ex_state_def)

text \<open>
  The claim as the spec words it, with the flag forced to true, fails when presets are
  disabled in the store: the menus are handed \<^verbatim>\<open>EnablePresets = false\<close>.
\<close>

theorem Cancel_enablement_not_forced:
  "main_frame (Cancel ex_state_off) =
     Some \<lparr>menu_applied =
             [(\<lparr>PresetIndex = 1, EnablePresets = False, PresetFields = False,
                 OtherFields = ''folders''\<rparr>, preset_flags)],
           menu_pending = False, menu_commits = 0\<rparr>"
  by (simp add: Cancel_def ex_state_off_def MainFrame_ApplyConfigToGui_def)

section \<open>What \<^verbatim>\<open>Apply\<close> writes\<close>

text \<open>
  Claim C9, as the code has it. \<^verbatim>\<open>Apply()\<close> sets \<^verbatim>\<open>PresetIndex\<close> to the slider's value and
  \<^verbatim>\<open>EnablePresets\<close> to the checkbox and assigns no other field itself; the fields no
  preset governs are unchanged when it returns. Without a main frame the preset-governed
  fields are unchanged too; with one, \<^verbatim>\<open>CommitPreset_noTrigger\<close> has written into them the
  values the menus hold.
\<close>

theorem Apply_writes_and_frame:
  "PresetIndex (g_Conf (Apply s)) = sl_value (m_slider_presets s) \<and>
   EnablePresets (g_Conf (Apply s)) = m_check_presets s \<and>
   OtherFields (g_Conf (Apply s)) = OtherFields (g_Conf s) \<and>
   PresetFields (g_Conf (Apply s)) =
     (case main_frame s of None \<Rightarrow> PresetFields (g_Conf s) | Some mf \<Rightarrow> menu_pending mf)"
  by (simp add: Apply_def Let_def CommitPreset_noTrigger_def split: option.split)

text \<open>
  The claim that every field but the two is unchanged fails in the scenario of the
  comment in \<^verbatim>\<open>UpdateGuiForPreset\<close> (presets checked and unchecked again, then Apply):
  \<^verbatim>\<open>PresetIndex\<close> and \<^verbatim>\<open>EnablePresets\<close> are what they were and a preset-governed field has
  changed.
\<close>

theorem Apply_changes_a_third_field:
  "g_Conf ex_state_pending =
     \<lparr>PresetIndex = 1, EnablePresets = False, PresetFields = False,
      OtherFields = ''folders''\<rparr> \<and>
   g_Conf (Apply ex_state_pending) =
     \<lparr>PresetIndex = 1, EnablePresets = False, PresetFields = True,
      OtherFields = ''folders''\<rparr>"
  by (simp add: Apply_def Let_def CommitPreset_noTrigger_def ex_state_pending_def)

section \<open>The index \<^verbatim>\<open>Apply\<close> stores is in range\<close>

text \<open>
  Claim C8. Let the largest preset index \<open>M\<close> be at least 0 and the dialog have a page for
  each of its labels. Once the presets controls are created with the slider's range
  \<open>[0, M]\<close>, whatever the user does to the slider and the checkbox, the session returns and
  the \<^verbatim>\<open>PresetIndex\<close> that \<^verbatim>\<open>Apply()\<close> leaves in \<^verbatim>\<open>g_Conf\<close> is between 0 and \<open>M\<close>.
\<close>

theorem session_keeps_index_in_range:
  assumes "pages_ok s0" and "0 \<le> M"
  shows "\<exists>s'. dialog_session applyPreset presetText M evs s0 = Inr s' \<and>
           0 \<le> PresetIndex (g_Conf s') \<and> PresetIndex (g_Conf s') \<le> M"
proof -
  let ?s = "AddPresetsControl presetText M s0"
  have ok: "pages_ok ?s" using assms(1) by (simp add: AddPresetsControl_frame)
  have lo: "sl_min (m_slider_presets ?s) \<le> sl_value (m_slider_presets ?s)"
    and hi: "sl_value (m_slider_presets ?s) \<le> sl_max (m_slider_presets ?s)"
    using assms(2) by (simp_all add: AddPresetsControl_frame)
  from run_events_frame [OF ok lo hi, of applyPreset presetText evs]
  obtain s1 where r: "run_events applyPreset presetText evs ?s = Inr s1"
    and b: "sl_min (m_slider_presets s1) = sl_min (m_slider_presets ?s)"
           "sl_max (m_slider_presets s1) = sl_max (m_slider_presets ?s)"
           "sl_min (m_slider_presets s1) \<le> sl_value (m_slider_presets s1)"
           "sl_value (m_slider_presets s1) \<le> sl_max (m_slider_presets s1)"
    by blast
  have "dialog_session applyPreset presetText M evs s0 = Inr (Apply s1)"
    using r by (simp add: dialog_session_def)
  moreover have "0 \<le> PresetIndex (g_Conf (Apply s1))" "PresetIndex (g_Conf (Apply s1)) \<le> M"
    using b by (simp_all add: Apply_frame AddPresetsControl_frame)
  ultimately show ?thesis by blast
qed

theorem session_keeps_index_in_range_witness:
  "pages_ok ex_state \<and> (0::int) \<le> 5 \<and>
   (\<exists>s'. dialog_session (IsOkApplyPreset ex_bundle) ex_text 5 [Slider_moved 9] ex_state
            = Inr s' \<and>
      0 \<le> PresetIndex (g_Conf s') \<and> PresetIndex (g_Conf s') \<le> 5 \<and>
      PresetIndex (g_Conf s') = 5)"
proof -
  have ok: "pages_ok ex_state" by (simp add: pages_ok_def ex_state_def)
  have m: "(0::int) \<le> 5" by simp
  from session_keeps_index_in_range [OF ok m, of "IsOkApplyPreset ex_bundle" ex_text
      "[Slider_moved 9]"]
  obtain s' where
    r: "dialog_session (IsOkApplyPreset ex_bundle) ex_text 5 [Slider_moved 9] ex_state = Inr s'"
    and lo: "0 \<le> PresetIndex (g_Conf s')" and hi: "PresetIndex (g_Conf s') \<le> 5"
    by blast
  from r have "PresetIndex (g_Conf s') = 5"
    by (auto simp add: dialog_session_def dispatch_def Preset_Scroll_def
      AddPresetsControl_def ex_state_def wxSlider_new_def wxSlider_moved_def ex_text_def
      UpdateGuiForPreset_def Let_def page_loop_all Apply_def CommitPreset_noTrigger_def)
  with ok r lo hi show ?thesis by simp
qed

section \<open>\<^verbatim>\<open>Apply\<close> stores the last preview\<close>

text \<open>
  Claim C2. Take a store whose \<^verbatim>\<open>PresetIndex\<close> is between 0 and \<open>M\<close>, a dialog that has a
  page for each of its labels, and no call of \<^verbatim>\<open>UpdateGuiForPreset\<close> on record. Create the
  presets controls, let the user move the slider and click the checkbox in any order
  (each event enters \<^verbatim>\<open>UpdateGuiForPreset\<close> once), then run \<^verbatim>\<open>Apply()\<close>. The session returns;
  \<^verbatim>\<open>PresetIndex\<close> and \<^verbatim>\<open>EnablePresets\<close> of \<^verbatim>\<open>g_Conf\<close> are then the arguments of the last call of
  \<^verbatim>\<open>UpdateGuiForPreset\<close>, or the store's original values when there was none; and a main
  frame, if there is one, has been asked once more to commit and the store holds the
  preset values its menus hold.
\<close>

theorem Apply_stores_last_preview:
  assumes "pages_ok s0" and "preview_calls s0 = []"
    and "0 \<le> PresetIndex (g_Conf s0)" and "PresetIndex (g_Conf s0) \<le> M"
  shows "\<exists>s'. dialog_session applyPreset presetText M evs s0 = Inr s' \<and>
           length (preview_calls s') = length evs \<and>
           (PresetIndex (g_Conf s'), EnablePresets (g_Conf s')) =
             (if preview_calls s' = []
              then (PresetIndex (g_Conf s0), EnablePresets (g_Conf s0))
              else last (preview_calls s')) \<and>
           (case main_frame s0 of
              None \<Rightarrow> main_frame s' = None
            | Some mf0 \<Rightarrow>
                \<exists>mf'. main_frame s' = Some mf' \<and>
                  menu_commits mf' = Suc (menu_commits mf0) \<and>
                  PresetFields (g_Conf s') = menu_pending mf')"
proof -
  let ?s = "AddPresetsControl presetText M s0"
  have ok: "pages_ok ?s" using assms(1) by (simp add: AddPresetsControl_frame)
  have v: "sl_value (m_slider_presets ?s) = PresetIndex (g_Conf s0)"
    using assms(3,4) by (simp add: AddPresetsControl_frame)
  have lo: "sl_min (m_slider_presets ?s) \<le> sl_value (m_slider_presets ?s)"
    and hi: "sl_value (m_slider_presets ?s) \<le> sl_max (m_slider_presets ?s)"
    using assms(3,4) by (simp_all add: AddPresetsControl_frame)
  from run_events_frame [OF ok lo hi, of applyPreset presetText evs]
  obtain s1 where r: "run_events applyPreset presetText evs ?s = Inr s1"
    and n: "length (preview_calls s1) = length (preview_calls ?s) + length evs"
    and l: "if evs = [] then s1 = ?s
            else last (preview_calls s1) =
                   (sl_value (m_slider_presets s1), m_check_presets s1)"
    and m: "map_option menu_commits (main_frame s1) = map_option menu_commits (main_frame ?s)"
    by blast
  have run: "dialog_session applyPreset presetText M evs s0 = Inr (Apply s1)"
    using r by (simp add: dialog_session_def)
  have len: "length (preview_calls (Apply s1)) = length evs"
    using n assms(2) by (simp add: Apply_frame AddPresetsControl_frame)
  have vals: "(PresetIndex (g_Conf (Apply s1)), EnablePresets (g_Conf (Apply s1))) =
             (if preview_calls (Apply s1) = []
              then (PresetIndex (g_Conf s0), EnablePresets (g_Conf s0))
              else last (preview_calls (Apply s1)))"
  proof (cases "evs = []")
    case True
    with l have "s1 = ?s" by simp
    with True len v show ?thesis by (simp add: Apply_frame AddPresetsControl_frame)
  next
    case False
    with len have "preview_calls (Apply s1) \<noteq> []" by auto
    with False l show ?thesis by (simp add: Apply_frame)
  qed
  have menu: "(case main_frame s0 of
              None \<Rightarrow> main_frame (Apply s1) = None
            | Some mf0 \<Rightarrow>
                \<exists>mf'. main_frame (Apply s1) = Some mf' \<and>
                  menu_commits mf' = Suc (menu_commits mf0) \<and>
                  PresetFields (g_Conf (Apply s1)) = menu_pending mf')"
    using m by (cases "main_frame s0"; cases "main_frame s1")
      (simp_all add: Apply_frame AddPresetsControl_frame)
  from run len vals menu show ?thesis by blast
qed

theorem Apply_stores_last_preview_witness:
  "pages_ok ex_state \<and> preview_calls ex_state = [] \<and>
   0 \<le> PresetIndex (g_Conf ex_state) \<and> PresetIndex (g_Conf ex_state) \<le> 5 \<and>
   (\<exists>s'. dialog_session (IsOkApplyPreset ex_bundle) ex_text 5
            [Slider_moved 3, Checkbox_clicked] ex_state = Inr s' \<and>
      preview_calls s' = [(3, True), (3, False)] \<and>
      (PresetIndex (g_Conf s'), EnablePresets (g_Conf s')) = (3, False) \<and>
      (\<exists>mf'. main_frame s' = Some mf' \<and> menu_commits mf' = 1 \<and>
         PresetFields (g_Conf s') = menu_pending mf'))"
proof -
  have ok: "pages_ok ex_state" and pc: "preview_calls ex_state = []"
    and lo: "0 \<le> PresetIndex (g_Conf ex_state)" and hi: "PresetIndex (g_Conf ex_state) \<le> 5"
    by (simp_all add: pages_ok_def ex_state_def)
  from Apply_stores_last_preview [OF ok pc lo hi, of "IsOkApplyPreset ex_bundle" ex_text
      "[Slider_moved 3, Checkbox_clicked]"]
  obtain s' where
    r: "dialog_session (IsOkApplyPreset ex_bundle) ex_text 5
          [Slider_moved 3, Checkbox_clicked] ex_state = Inr s'"
    and v: "(PresetIndex (g_Conf s'), EnablePresets (g_Conf s')) =
             (if preview_calls s' = []
              then (PresetIndex (g_Conf ex_state), EnablePresets (g_Conf ex_state))
              else last (preview_calls s'))"
    and m: "(case main_frame ex_state of
              None \<Rightarrow> main_frame s' = None
            | Some mf0 \<Rightarrow>
                \<exists>mf'. main_frame s' = Some mf' \<and>
                  menu_commits mf' = Suc (menu_commits mf0) \<and>
                  PresetFields (g_Conf s') = menu_pending mf')"
    by blast
  from r have c: "preview_calls s' = [(3, True), (3, False)]"
    by (auto simp add: dialog_session_def dispatch_def Preset_Scroll_def Presets_Toggled_def
      AddPresetsControl_def ex_state_def wxSlider_new_def wxSlider_moved_def ex_text_def
      UpdateGuiForPreset_def Let_def page_loop_all Apply_def CommitPreset_noTrigger_def)
  from v c have v': "(PresetIndex (g_Conf s'), EnablePresets (g_Conf s')) = (3, False)"
    by simp
  from m have m': "\<exists>mf'. main_frame s' = Some mf' \<and> menu_commits mf' = 1 \<and>
         PresetFields (g_Conf s') = menu_pending mf'"
    by (simp add: ex_state_def)
  from ok pc lo hi r c v' m' show ?thesis by blast
qed

end
